theory Spec2Isabelle
  imports Main "HOL-Library.AList"
begin

section \<open>Data model\<close>

text \<open>
  Text is a \<open>string\<close>; a \<open>char\<close> stands for one code point below 256. A Python dict
  is an association list in insertion order: \<open>map_of\<close> reads a key, \<open>AList.update\<close>
  stores one (an existing key keeps its position, a new key goes to the end), as
  \<open>d[k] = v\<close> does. Exceptions are values of type \<open>error\<close>.
\<close>

datatype error =
  AttributeError | KeyError | TypeError | OverflowError | RegexError | IOError | SystemExit nat

text \<open>
  \<open>Task\<close> objects: the keys of the playbook entry (set by \<open>**task\<close>, among them
  \<open>name\<close>) and the three result fields.
\<close>

record Task =
  name :: string
  params :: "string \<rightharpoonup> string"
  callback_result :: "string option"
  exit_status :: "string option"
  task_failed :: "bool option"

text \<open>
  \<open>Host\<close> objects: one attribute per CSV column (set by \<open>**row\<close>) and the dict
  \<open>tasks\<close>. Only the attributes the constructor sets are modelled.
\<close>

record Host =
  attrs :: "string \<rightharpoonup> string"
  tasks :: "(string \<times> Task) list"

type_synonym registry = "(string \<times> Host) list"

definition getattr :: "Host \<Rightarrow> string \<Rightarrow> error + string" where
  "getattr host k = (case attrs host k of None \<Rightarrow> Inl AttributeError | Some v \<Rightarrow> Inr v)"

definition getitem :: "('k \<times> 'v) list \<Rightarrow> 'k \<Rightarrow> error + 'v" where
  "getitem d k = (case map_of d k of None \<Rightarrow> Inl KeyError | Some v \<Rightarrow> Inr v)"

section \<open>Strings\<close>

definition lower_char :: "char \<Rightarrow> char" where
  "lower_char c =
     (let n = (of_char c :: nat)
      in if (65 \<le> n \<and> n \<le> 90) \<or> (192 \<le> n \<and> n \<le> 214) \<or> (216 \<le> n \<and> n \<le> 222)
         then char_of (n + 32) else c)"

definition lower :: "string \<Rightarrow> string" where
  "lower s = map lower_char s"

text \<open>\<open>k.upper().replace("_", " ")\<close> of the header row, on ASCII letters.\<close>

definition header_char :: "char \<Rightarrow> char" where
  "header_char c =
     (let n = (of_char c :: nat)
      in if 97 \<le> n \<and> n \<le> 122 then char_of (n - 32)
         else if c = CHR ''_'' then CHR '' '' else c)"

definition header_cell :: "string \<Rightarrow> string" where
  "header_cell k = map header_char k"

definition digit_char :: "nat \<Rightarrow> char" where
  "digit_char d = char_of (48 + d)"

fun str_nat :: "nat \<Rightarrow> string" where
  "str_nat n = (if n < 10 then [digit_char n] else str_nat (n div 10) @ [digit_char (n mod 10)])"

declare str_nat.simps [simp del]

text \<open>\<open>str(x)\<close> for an integer or \<open>None\<close>, and for a string or \<open>None\<close>.\<close>

definition str_int :: "int option \<Rightarrow> string" where
  "str_int x =
     (case x of None \<Rightarrow> ''None''
      | Some i \<Rightarrow> if i < 0 then CHR ''-'' # str_nat (nat (- i)) else str_nat (nat i))"

definition str_text :: "string option \<Rightarrow> string" where
  "str_text x = (case x of None \<Rightarrow> ''None'' | Some s \<Rightarrow> s)"

section \<open>Regular expressions of the output parsers\<close>

text \<open>
  The four patterns of \<open>ansible_callbacks\<close> are sequences of single characters and of
  character classes under \<open>*\<close> or \<open>+\<close>, with one capture group around one item. A pattern
  is the items before the group, the item in the group and the items after it. The
  matcher backtracks as \<open>re\<close> does: it lists the ways to match in the order \<open>re\<close> tries
  them (a greedy quantifier takes the longest run first) and the first one wins.
  The classes are \<open>\d\<close>, \<open>\s\<close>, \<open>[\d.]\<close>, \<open>\D\<close>, \<open>\S\<close>, and a character compared without regard
  to case, as the flag \<open>re.IGNORECASE\<close> compares it.
\<close>

datatype cclass =
  Lit char | Digit | Space | DigitOrDot | NotDigit | NotSpace | AnyCase char

datatype item = One cclass | Star cclass | Plus cclass

type_synonym pattern = "item list \<times> item \<times> item list"

definition is_digit :: "char \<Rightarrow> bool" where
  "is_digit c = (let n = (of_char c :: nat) in 48 \<le> n \<and> n \<le> 57)"

definition is_space :: "char \<Rightarrow> bool" where
  "is_space c =
     (let n = (of_char c :: nat)
      in (9 \<le> n \<and> n \<le> 13) \<or> (28 \<le> n \<and> n \<le> 32) \<or> n = 133 \<or> n = 160)"

fun cmatch :: "cclass \<Rightarrow> char \<Rightarrow> bool" where
  "cmatch (Lit a) c = (c = a)"
| "cmatch Digit c = is_digit c"
| "cmatch Space c = is_space c"
| "cmatch DigitOrDot c = (is_digit c \<or> c = CHR ''.'')"
| "cmatch NotDigit c = (\<not> is_digit c)"
| "cmatch NotSpace c = (\<not> is_space c)"
| "cmatch (AnyCase a) c = (lower_char c = lower_char a)"

text \<open>The ways to split a run of class characters off the front, longest first.\<close>

fun runs :: "cclass \<Rightarrow> string \<Rightarrow> (string \<times> string) list" where
  "runs c [] = [([], [])]"
| "runs c (x # xs) =
     (if cmatch c x then map (\<lambda>(a, r). (x # a, r)) (runs c xs) @ [([], x # xs)]
      else [([], x # xs)])"

fun item_match :: "item \<Rightarrow> string \<Rightarrow> (string \<times> string) list" where
  "item_match (One c) [] = []"
| "item_match (One c) (x # xs) = (if cmatch c x then [([x], xs)] else [])"
| "item_match (Star c) s = runs c s"
| "item_match (Plus c) s = filter (\<lambda>(a, r). a \<noteq> []) (runs c s)"

text \<open>The rest of the input after each way to match a sequence of items.\<close>

fun seq_match :: "item list \<Rightarrow> string \<Rightarrow> string list" where
  "seq_match [] s = [s]"
| "seq_match (i # is) s = concat (map (\<lambda>(a, r). seq_match is r) (item_match i s))"

text \<open>The text of group 1 for each way to match the pattern at the start of \<open>s\<close>.\<close>

definition match_here :: "pattern \<Rightarrow> string \<Rightarrow> string list" where
  "match_here p s =
     (case p of (pre, g, post) \<Rightarrow>
        concat (map (\<lambda>r. concat (map (\<lambda>(a, r'). map (\<lambda>_. a) (seq_match post r'))
                                        (item_match g r)))
                    (seq_match pre s)))"

text \<open>\<open>re.search\<close>: the leftmost start position with a match; \<open>m.group(1)\<close> of it.\<close>

fun re_search :: "pattern \<Rightarrow> string \<Rightarrow> string option" where
  "re_search p [] = (case match_here p [] of [] \<Rightarrow> None | g # _ \<Rightarrow> Some g)"
| "re_search p (x # xs) =
     (case match_here p (x # xs) of [] \<Rightarrow> re_search p xs | g # _ \<Rightarrow> Some g)"

definition lits :: "string \<Rightarrow> item list" where
  "lits s = map (\<lambda>c. One (Lit c)) s"

text \<open>\<open>(\d+)\s*kB\<close>, \<open>CPU\(s\):\s*(\d+)\<close>, \<open>MEM\s*([\d.]+)\<close>, \<open>CPU\s*([\d.]+)\<close>\<close>

definition ram_amount_re :: pattern where
  "ram_amount_re = ([], Plus Digit, Star Space # lits ''kB'')"

definition cpu_number_re :: pattern where
  "cpu_number_re = (lits ''CPU(s):'' @ [Star Space], Plus Digit, [])"

definition peak_ram_usage_re :: pattern where
  "peak_ram_usage_re = (lits ''MEM'' @ [Star Space], Plus DigitOrDot, [])"

definition peak_cpu_usage_re :: pattern where
  "peak_cpu_usage_re = (lits ''CPU'' @ [Star Space], Plus DigitOrDot, [])"

section \<open>Arithmetic of \<open>ram_amount\<close>\<close>

text \<open>
  \<open>int(m.group(1)) * 10 ** -6\<close> is a product of two doubles and \<open>round\<close> takes it to the
  nearest integer, ties to even. A non-negative double is a pair \<open>(m, e)\<close> standing for
  \<open>m * 2 ^ e\<close>; rounding to 53 significant bits is round-to-nearest, ties to even.
  \<open>10 ** -6\<close> is the double nearest to one millionth, \<open>4722366482869645 * 2 ^ -72\<close>.
  Converting an integer of \<open>2 ^ 1024\<close> or more (after rounding) raises OverflowError.
  The limit that recent versions of Python put on the number of digits \<open>int\<close> accepts
  (4300) is not modelled.
\<close>

definition int_of_digits :: "string \<Rightarrow> nat" where
  "int_of_digits ds = foldl (\<lambda>acc c. 10 * acc + (of_char c - 48)) 0 ds"

fun bitlen :: "nat \<Rightarrow> nat" where
  "bitlen n = (if n = 0 then 0 else Suc (bitlen (n div 2)))"

declare bitlen.simps [simp del]

definition round_half_even :: "nat \<Rightarrow> nat \<Rightarrow> nat" where
  "round_half_even x k =
     (let q = x div 2 ^ k; r = x mod 2 ^ k
      in if 2 * r > 2 ^ k \<or> (2 * r = 2 ^ k \<and> odd q) then q + 1 else q)"

definition round53 :: "nat \<Rightarrow> int \<Rightarrow> nat \<times> int" where
  "round53 x e =
     (let b = bitlen x
      in if b \<le> 53 then (x, e) else (round_half_even x (b - 53), e + int (b - 53)))"

definition float_of_int :: "nat \<Rightarrow> error + nat \<times> int" where
  "float_of_int n =
     (case round53 n 0 of (m, e) \<Rightarrow>
        if m * 2 ^ nat e \<ge> 2 ^ 1024 then Inl OverflowError else Inr (m, e))"

definition float_mul :: "nat \<times> int \<Rightarrow> nat \<times> int \<Rightarrow> nat \<times> int" where
  "float_mul x y = (case x of (m1, e1) \<Rightarrow> case y of (m2, e2) \<Rightarrow> round53 (m1 * m2) (e1 + e2))"

definition one_millionth :: "nat \<times> int" where
  "one_millionth = (4722366482869645, - 72)"

definition py_round :: "nat \<times> int \<Rightarrow> nat" where
  "py_round x = (case x of (m, e) \<Rightarrow> if e \<ge> 0 then m * 2 ^ nat e else round_half_even m (nat (- e)))"

definition kb_to_gb :: "nat \<Rightarrow> error + nat" where
  "kb_to_gb n =
     (case float_of_int n of Inl err \<Rightarrow> Inl err
      | Inr x \<Rightarrow> Inr (py_round (float_mul x one_millionth)))"

section \<open>Output parsers (\<open>ansible_callbacks.py\<close>)\<close>

definition ram_amount :: "string \<Rightarrow> error + string option" where
  "ram_amount stdout =
     (case re_search ram_amount_re stdout of
        Some g \<Rightarrow> (case kb_to_gb (int_of_digits g) of Inl err \<Rightarrow> Inl err
                   | Inr n \<Rightarrow> Inr (Some (str_nat n @ '' GB'')))
      | None \<Rightarrow> Inr None)"

definition cpu_number :: "string \<Rightarrow> error + string option" where
  "cpu_number stdout =
     (case re_search cpu_number_re stdout of
        Some g \<Rightarrow> Inr (Some (g @ '' CPU(s)''))
      | None \<Rightarrow> Inr None)"

definition peak_ram_usage :: "string \<Rightarrow> error + string option" where
  "peak_ram_usage stdout =
     (case re_search peak_ram_usage_re stdout of
        Some g \<Rightarrow> Inr (Some (g @ ''%''))
      | None \<Rightarrow> Inr None)"

definition peak_cpu_usage :: "string \<Rightarrow> error + string option" where
  "peak_cpu_usage stdout =
     (case re_search peak_cpu_usage_re stdout of
        Some g \<Rightarrow> Inr (Some (g @ ''%''))
      | None \<Rightarrow> Inr None)"

text \<open>
  \<open>getattr(ansible_callbacks, task.name)\<close> followed by the call: the module has the four
  parsers and the imported module \<open>re\<close>, which is not callable. The attributes that every
  module has (\<open>__name__\<close>, \<open>__doc__\<close> and the like) are not modelled.
\<close>

definition stdout_callback :: "string \<Rightarrow> string \<Rightarrow> error + string option" where
  "stdout_callback nm stdout =
     (if nm = ''ram_amount'' then ram_amount stdout
      else if nm = ''cpu_number'' then cpu_number stdout
      else if nm = ''peak_ram_usage'' then peak_ram_usage stdout
      else if nm = ''peak_cpu_usage'' then peak_cpu_usage stdout
      else if nm = ''re'' then Inl TypeError
      else Inl AttributeError)"

section \<open>Host and task registry (\<open>class Azure\<close>)\<close>

text \<open>
  \<open>load_from_csv\<close>: the rows are the dicts \<open>csv.DictReader\<close> yields, one cell per header
  column; \<open>None\<close> stands for a file that cannot be opened. \<open>row["name"]\<close> is evaluated
  before \<open>Host(**row, tasks={})\<close>, which refuses a second \<open>tasks\<close> keyword. A line of the
  file with more or with fewer cells than the header is not modelled.
\<close>

type_synonym row = "string \<rightharpoonup> string"

fun load_rows :: "row list \<Rightarrow> registry \<Rightarrow> error + registry" where
  "load_rows [] hosts = Inr hosts"
| "load_rows (row # rows) hosts =
     (case row ''name'' of None \<Rightarrow> Inl KeyError
      | Some n \<Rightarrow>
          if row ''tasks'' \<noteq> None then Inl TypeError
          else load_rows rows (AList.update n \<lparr>attrs = row, tasks = []\<rparr> hosts))"

definition load_from_csv :: "row list option \<Rightarrow> error + registry" where
  "load_from_csv document =
     (case document of None \<Rightarrow> Inl (SystemExit 1) | Some rows \<Rightarrow> load_rows rows [])"

text \<open>
  \<open>load_playbook\<close>: the playbook is the task list of its first play, each task a dict.
  \<open>Task(**task, callback_result=None, exit_status=None, task_failed=None)\<close> is built
  before the key \<open>task["name"].lower()\<close> is evaluated.
\<close>

definition new_task :: "row \<Rightarrow> error + Task" where
  "new_task task =
     (if task ''callback_result'' \<noteq> None \<or> task ''exit_status'' \<noteq> None
         \<or> task ''task_failed'' \<noteq> None then Inl TypeError
      else case task ''name'' of None \<Rightarrow> Inl KeyError
           | Some n \<Rightarrow> Inr \<lparr>name = n, params = task, callback_result = None,
                            exit_status = None, task_failed = None\<rparr>)"

fun attach_tasks :: "row list \<Rightarrow> (string \<times> Task) list \<Rightarrow> error + (string \<times> Task) list" where
  "attach_tasks [] ts = Inr ts"
| "attach_tasks (task # rest) ts =
     (case new_task task of Inl err \<Rightarrow> Inl err
      | Inr t \<Rightarrow> attach_tasks rest (AList.update (lower (name t)) t ts))"

fun attach_hosts :: "row list \<Rightarrow> registry \<Rightarrow> error + registry" where
  "attach_hosts playbook [] = Inr []"
| "attach_hosts playbook ((k, host) # hosts) =
     (case attach_tasks playbook (tasks host) of Inl err \<Rightarrow> Inl err
      | Inr ts \<Rightarrow> (case attach_hosts playbook hosts of Inl err \<Rightarrow> Inl err
                   | Inr hosts' \<Rightarrow> Inr ((k, host\<lparr>tasks := ts\<rparr>) # hosts')))"

definition load_playbook :: "row list option \<Rightarrow> registry \<Rightarrow> error + registry" where
  "load_playbook document hosts =
     (case document of None \<Rightarrow> Inl (SystemExit 1) | Some playbook \<Rightarrow> attach_hosts playbook hosts)"

section \<open>Filter and inventory\<close>

text \<open>
  \<open>re.match\<close> on a pattern given as text belongs to the \<open>re\<close> library and is a parameter:
  \<open>re_match p s\<close> is \<open>None\<close> when \<open>p\<close> does not compile, else whether \<open>p\<close> matches at the
  start of \<open>s\<close>. The arguments are evaluated first, so a missing attribute is raised
  before the pattern is compiled.
\<close>

type_synonym matcher = "string \<Rightarrow> string \<Rightarrow> bool option"

fun has_fields :: "matcher \<Rightarrow> Host \<Rightarrow> (string \<times> string) list \<Rightarrow> error + bool" where
  "has_fields re_match host [] = Inr True"
| "has_fields re_match host ((k, v) # flds) =
     (case getattr host (lower k) of Inl err \<Rightarrow> Inl err
      | Inr a \<Rightarrow>
          (case re_match (lower v) (lower a) of None \<Rightarrow> Inl RegexError
           | Some matched \<Rightarrow>
               if \<not> matched then Inr False else has_fields re_match host flds))"

fun filter_loop ::
  "matcher \<Rightarrow> (string \<times> string) list \<Rightarrow> Host list \<Rightarrow> registry \<Rightarrow> error + registry" where
  "filter_loop re_match flds [] hosts = Inr hosts"
| "filter_loop re_match flds (host # rest) hosts =
     (case has_fields re_match host flds of Inl err \<Rightarrow> Inl err
      | Inr ok \<Rightarrow>
          if ok then (case getattr host ''name'' of Inl err \<Rightarrow> Inl err
                      | Inr n \<Rightarrow> filter_loop re_match flds rest (AList.update n host hosts))
          else filter_loop re_match flds rest hosts)"

definition filter_hosts ::
  "matcher \<Rightarrow> registry \<Rightarrow> (string \<times> string) list option \<Rightarrow> error + registry" where
  "filter_hosts re_match hosts flds =
     (case flds of None \<Rightarrow> Inr hosts
      | Some fs \<Rightarrow> filter_loop re_match fs (map snd hosts) [])"

record entry =
  ansible_host :: string
  ansible_port :: nat
  ansible_user :: string
  ansible_ssh_private_key_file :: string

definition inventory_entry :: "Host \<Rightarrow> error + string \<times> entry" where
  "inventory_entry host =
     (case getattr host ''public_ip_address'' of Inl err \<Rightarrow> Inl err
      | Inr ip \<Rightarrow>
          (case getattr host ''name'' of Inl err \<Rightarrow> Inl err
           | Inr n \<Rightarrow>
               Inr (n, \<lparr>ansible_host = ip, ansible_port = 22, ansible_user = ''ubuntu'',
                        ansible_ssh_private_key_file =
                          ''/var/lib/jenkins/.ts/admin/rsa/azure/'' @ n @ ''/'' @ n\<rparr>)))"

fun ansible_dict :: "Host list \<Rightarrow> (string \<times> entry) list \<Rightarrow> error + (string \<times> entry) list" where
  "ansible_dict [] d = Inr d"
| "ansible_dict (host # rest) d =
     (case inventory_entry host of Inl err \<Rightarrow> Inl err
      | Inr (n, e) \<Rightarrow> ansible_dict rest (AList.update n e d))"

text \<open>
  \<open>generate_yaml\<close> returns the dict it dumps under \<open>all: hosts:\<close> and the selected hosts;
  \<open>writable\<close> says whether the inventory file can be opened.
\<close>

definition generate_yaml ::
  "matcher \<Rightarrow> bool \<Rightarrow> registry \<Rightarrow> (string \<times> string) list option
     \<Rightarrow> error + (string \<times> entry) list \<times> registry" where
  "generate_yaml re_match writable self_hosts flds =
     (if \<not> writable then Inl (SystemExit 1)
      else case filter_hosts re_match self_hosts flds of Inl err \<Rightarrow> Inl err
           | Inr hosts \<Rightarrow>
               (case ansible_dict (map snd hosts) [] of Inl err \<Rightarrow> Inl err
                | Inr d \<Rightarrow> Inr (d, hosts)))"

section \<open>Result collector (\<open>class ResultsCollector\<close>)\<close>

text \<open>
  An event carries \<open>str(result._host)\<close>, \<open>str(result._task.name)\<close> and the entries \<open>rc\<close>
  and \<open>stdout\<close> of \<open>result._result\<close>. A handler returns the registry after the event,
  with the exception it raised or the lines it printed to the error stream.
\<close>

record result =
  res_host :: string
  res_task :: string
  res_rc :: "int option"
  res_stdout :: "string option"

definition get_host :: "registry \<Rightarrow> result \<Rightarrow> error + Host" where
  "get_host hosts r = getitem hosts (res_host r)"

definition get_task :: "registry \<Rightarrow> result \<Rightarrow> error + Task" where
  "get_task hosts r =
     (case getitem hosts (res_host r) of Inl err \<Rightarrow> Inl err
      | Inr host \<Rightarrow> getitem (tasks host) (res_task r))"

text \<open>The task object found by \<open>get_task\<close>, after assignments to its attributes.\<close>

definition put_task :: "registry \<Rightarrow> result \<Rightarrow> Task \<Rightarrow> registry" where
  "put_task hosts r task =
     (case map_of hosts (res_host r) of None \<Rightarrow> hosts
      | Some host \<Rightarrow>
          AList.update (res_host r)
            (host\<lparr>tasks := AList.update (res_task r) task (tasks host)\<rparr>) hosts)"

definition v2_runner_on_ok :: "registry \<Rightarrow> result \<Rightarrow> registry \<times> (error + string list)" where
  "v2_runner_on_ok hosts r =
     (case get_task hosts r of Inl err \<Rightarrow> (hosts, Inl err)
      | Inr task \<Rightarrow>
          (case stdout_callback (name task) (str_text (res_stdout r)) of
             Inl err \<Rightarrow> (hosts, Inl err)
           | Inr parsed \<Rightarrow>
               (put_task hosts r
                  (task\<lparr>callback_result := parsed,
                        exit_status := Some (str_int (res_rc r)),
                        task_failed := Some False\<rparr>), Inr [])))"

definition v2_runner_on_failed :: "registry \<Rightarrow> result \<Rightarrow> registry \<times> (error + string list)" where
  "v2_runner_on_failed hosts r =
     (case get_task hosts r of Inl err \<Rightarrow> (hosts, Inl err)
      | Inr task \<Rightarrow>
          (put_task hosts r
             (task\<lparr>exit_status := Some (str_int (res_rc r)), task_failed := Some True\<rparr>),
           Inr [''Error: '' @ name task @ '' failed'']))"

definition v2_runner_on_unreachable ::
  "registry \<Rightarrow> result \<Rightarrow> registry \<times> (error + string list)" where
  "v2_runner_on_unreachable hosts r =
     (case get_host hosts r of Inl err \<Rightarrow> (hosts, Inl err)
      | Inr host \<Rightarrow>
          (case get_task hosts r of Inl err \<Rightarrow> (hosts, Inl err)
           | Inr task \<Rightarrow>
               (put_task hosts r
                  (task\<lparr>exit_status := Some (str_int (res_rc r)), task_failed := Some True\<rparr>),
                case getattr host ''name'' of Inl err \<Rightarrow> Inl err
                | Inr n \<Rightarrow>
                    (case getattr host ''public_ip_address'' of Inl err \<Rightarrow> Inl err
                     | Inr ip \<Rightarrow> Inr [''Error: '' @ n @ '' ('' @ ip @ '') unreachable'']))))"

section \<open>Report (\<open>__main__\<close> after \<open>executor.run()\<close>)\<close>

text \<open>
  A cell is a string or \<open>None\<close>. The report is the header row and the rows handed to
  \<open>writer.writerow\<close>, in order. The list \<open>values\<close> is created once, before the loop over
  the hosts, and extended in every round.
\<close>

type_synonym cell = "string option"

definition fieldlist :: "string list" where
  "fieldlist = [''name'', ''resource_group'', ''public_ip_address'']"

fun host_fields :: "Host \<Rightarrow> string list \<Rightarrow> error + cell list" where
  "host_fields host [] = Inr []"
| "host_fields host (field # rest) =
     (case getattr host field of Inl err \<Rightarrow> Inl err
      | Inr v \<Rightarrow> (case host_fields host rest of Inl err \<Rightarrow> Inl err
                  | Inr vs \<Rightarrow> Inr (Some v # vs)))"

fun host_results :: "Host \<Rightarrow> string list \<Rightarrow> error + cell list" where
  "host_results host [] = Inr []"
| "host_results host (cb # rest) =
     (case getitem (tasks host) cb of Inl err \<Rightarrow> Inl err
      | Inr task \<Rightarrow> (case host_results host rest of Inl err \<Rightarrow> Inl err
                     | Inr vs \<Rightarrow> Inr (callback_result task # vs)))"

fun write_rows :: "string list \<Rightarrow> Host list \<Rightarrow> cell list \<Rightarrow> error + cell list list" where
  "write_rows callbacks [] values = Inr []"
| "write_rows callbacks (host # rest) values =
     (case host_fields host fieldlist of Inl err \<Rightarrow> Inl err
      | Inr fs \<Rightarrow>
          (case host_results host callbacks of Inl err \<Rightarrow> Inl err
           | Inr rs \<Rightarrow>
               (case write_rows callbacks rest (values @ fs @ rs) of Inl err \<Rightarrow> Inl err
                | Inr rows \<Rightarrow> Inr ((values @ fs @ rs) # rows))))"

record run_end =
  exit_code :: nat
  report_file :: "(string list \<times> cell list list) option"

definition report :: "bool \<Rightarrow> registry \<Rightarrow> error + run_end" where
  "report writable hosts =
     (case hosts of [] \<Rightarrow> Inr \<lparr>exit_code = 0, report_file = None\<rparr>
      | (k, first) # _ \<Rightarrow>
          (if \<not> writable then Inl IOError
           else (case write_rows (map fst (tasks first)) (map snd hosts) [] of
                   Inl err \<Rightarrow> Inl err
                 | Inr rows \<Rightarrow>
                     Inr \<lparr>exit_code = 0,
                          report_file =
                            Some (map header_cell (fieldlist @ map fst (tasks first)), rows)\<rparr>)))"

section \<open>Frames and example data\<close>

text \<open>A task, and a registry, with the fields \<open>exit_status\<close> and \<open>task_failed\<close> blanked.\<close>

definition frame_task :: "Task \<Rightarrow> Task" where
  "frame_task t = t\<lparr>exit_status := None, task_failed := None\<rparr>"

definition frame :: "registry \<Rightarrow> registry" where
  "frame hosts =
     map (\<lambda>(k, h). (k, h\<lparr>tasks := map (\<lambda>(n, t). (n, frame_task t)) (tasks h)\<rparr>)) hosts"

text \<open>\<open>re.match\<close> for patterns made of ordinary characters only: a prefix test.\<close>

definition literal_match :: matcher where
  "literal_match p s = Some (take (length p) s = p)"

definition example_rows :: "row list" where
  "example_rows =
     [[''name'' \<mapsto> ''vm1'', ''resource_group'' \<mapsto> ''rg-production'',
       ''status'' \<mapsto> ''running'', ''public_ip_address'' \<mapsto> ''10.0.0.4''],
      [''name'' \<mapsto> ''vm2'', ''resource_group'' \<mapsto> ''rg-production'',
       ''status'' \<mapsto> ''running'', ''public_ip_address'' \<mapsto> ''10.0.0.5'']]"

definition example_playbook :: "row list" where
  "example_playbook = [[''name'' \<mapsto> ''ram_amount'', ''shell'' \<mapsto> ''cat /proc/meminfo'']]"

definition example_task :: Task where
  "example_task =
     \<lparr>name = ''ram_amount'', params = example_playbook ! 0, callback_result = None,
      exit_status = None, task_failed = None\<rparr>"

definition example_hosts :: registry where
  "example_hosts =
     [(''vm1'', \<lparr>attrs = example_rows ! 0, tasks = [(''ram_amount'', example_task)]\<rparr>),
      (''vm2'', \<lparr>attrs = example_rows ! 1, tasks = [(''ram_amount'', example_task)]\<rparr>)]"

definition example_event :: "string \<Rightarrow> string \<Rightarrow> result" where
  "example_event h out =
     \<lparr>res_host = h, res_task = ''ram_amount'', res_rc = Some 0, res_stdout = Some out\<rparr>"

definition example_failure :: result where
  "example_failure =
     \<lparr>res_host = ''vm1'', res_task = ''ram_amount'', res_rc = Some 2, res_stdout = None\<rparr>"

definition example_collected :: registry where
  "example_collected =
     fst (v2_runner_on_ok
            (fst (v2_runner_on_ok example_hosts
                    (example_event ''vm1'' ''MemTotal:        8000000 kB'')))
            (example_event ''vm2'' ''MemTotal:       16000000 kB''))"

text \<open>A playbook whose only task is declared as \<open>RAM_Amount\<close>, attached to one host.\<close>

definition example_upper_task :: Task where
  "example_upper_task =
     \<lparr>name = ''RAM_Amount'', params = [''name'' \<mapsto> ''RAM_Amount''], callback_result = None,
      exit_status = None, task_failed = None\<rparr>"

definition example_upper_hosts :: registry where
  "example_upper_hosts =
     [(''vm1'', \<lparr>attrs = example_rows ! 0, tasks = [(''ram_amount'', example_upper_task)]\<rparr>)]"

text \<open>
  The host \<open>Host(**row, tasks={})\<close> of a row, and the last row of a file with a given
  value in the column \<open>name\<close>.
\<close>

definition host_of_row :: "row \<Rightarrow> Host" where
  "host_of_row row = \<lparr>attrs = row, tasks = []\<rparr>"

definition last_row_named :: "string \<Rightarrow> row list \<Rightarrow> row option" where
  "last_row_named n rows = List.find (\<lambda>row. row ''name'' = Some n) (rev rows)"

definition example_duplicate_rows :: "row list" where
  "example_duplicate_rows =
     [[''name'' \<mapsto> ''vm1'', ''status'' \<mapsto> ''stopped''],
      [''name'' \<mapsto> ''vm2'', ''status'' \<mapsto> ''running''],
      [''name'' \<mapsto> ''vm1'', ''status'' \<mapsto> ''running'']]"

text \<open>
  The test that \<open>has_fields\<close> performs on one predicate \<open>(k, v)\<close>, as a truth value: the
  host has the attribute \<open>k.lower()\<close> and \<open>re.match\<close> finds the pattern \<open>v.lower()\<close> at the
  start of its lower-cased value.
\<close>

definition field_matches :: "matcher \<Rightarrow> Host \<Rightarrow> string \<times> string \<Rightarrow> bool" where
  "field_matches re_match host p =
     (case attrs host (lower (fst p)) of None \<Rightarrow> False
      | Some a \<Rightarrow> re_match (lower (snd p)) (lower a) = Some True)"

definition matches_all :: "matcher \<Rightarrow> Host \<Rightarrow> (string \<times> string) list \<Rightarrow> bool" where
  "matches_all re_match host flds = list_all (field_matches re_match host) flds"

text \<open>A registry as \<open>load_from_csv\<close> builds it: every host is filed under its own name.\<close>

definition keyed_by_name :: "registry \<Rightarrow> bool" where
  "keyed_by_name hosts =
     (distinct (map fst hosts) \<and> list_all (\<lambda>(n, h). attrs h ''name'' = Some n) hosts)"

text \<open>Predicates and a registry for the examples of the filter.\<close>

definition example_filter :: "(string \<times> string) list" where
  "example_filter = [(''Resource_Group'', ''RG-prod''), (''status'', ''running'')]"

definition example_bare_hosts :: registry where
  "example_bare_hosts = [(''vm1'', \<lparr>attrs = [''name'' \<mapsto> ''vm1''], tasks = []\<rparr>)]"

section \<open>\<open>re.match\<close> on simple patterns\<close>

text \<open>
  \<open>re.match\<close> on the patterns that are sequences of atoms, each with an optional \<open>*\<close> or
  \<open>+\<close>: an atom is an ordinary character, an escaped punctuation character, or one of
  \<open>\d\<close>, \<open>\D\<close>, \<open>\s\<close>, \<open>\S\<close>. The patterns of \<open>__main__\<close> are of this kind. Other patterns are
  not modelled: \<open>compile\<close> is \<open>None\<close> for them, as it is for a pattern that \<open>re\<close> refuses.
\<close>

definition backslash :: char where
  "backslash = CHR 0x5C"

definition is_alnum :: "char \<Rightarrow> bool" where
  "is_alnum c =
     (let n = (of_char c :: nat)
      in (48 \<le> n \<and> n \<le> 57) \<or> (65 \<le> n \<and> n \<le> 90) \<or> (97 \<le> n \<and> n \<le> 122))"

definition escape :: "char \<Rightarrow> cclass option" where
  "escape e =
     (if e = CHR ''d'' then Some Digit
      else if e = CHR ''D'' then Some NotDigit
      else if e = CHR ''s'' then Some Space
      else if e = CHR ''S'' then Some NotSpace
      else if is_alnum e then None
      else Some (Lit e))"

definition atom :: "string \<Rightarrow> (cclass \<times> string) option" where
  "atom p =
     (case p of [] \<Rightarrow> None
      | c # cs \<Rightarrow>
          if c = backslash
          then (case cs of [] \<Rightarrow> None
                | e # r \<Rightarrow> (case escape e of None \<Rightarrow> None | Some cl \<Rightarrow> Some (cl, r)))
          else if c \<in> set ''.^$*+?{}[]|()'' then None
          else Some (Lit c, cs))"

function compile :: "string \<Rightarrow> item list option" where
  "compile p =
     (if p = [] then Some []
      else case atom p of None \<Rightarrow> None
           | Some (cl, r) \<Rightarrow>
               (case r of [] \<Rightarrow> Some [One cl]
                | q # r' \<Rightarrow>
                    if q = CHR ''*'' then map_option (Cons (Star cl)) (compile r')
                    else if q = CHR ''+'' then map_option (Cons (Plus cl)) (compile r')
                    else map_option (Cons (One cl)) (compile r)))"
  by pat_completeness auto

termination
proof (relation "measure length")
qed (auto simp: atom_def split: list.splits if_splits option.splits)

declare compile.simps [simp del]

definition fragment_match :: matcher where
  "fragment_match p s =
     (case compile p of None \<Rightarrow> None | Some items \<Rightarrow> Some (seq_match items s \<noteq> []))"

text \<open>
  The same with the flag \<open>re.IGNORECASE\<close>: the pattern is compiled as it is written and
  its literal characters are compared without regard to case.
\<close>

fun ignorecase_class :: "cclass \<Rightarrow> cclass" where
  "ignorecase_class (Lit c) = AnyCase c"
| "ignorecase_class c = c"

fun ignorecase :: "item \<Rightarrow> item" where
  "ignorecase (One c) = One (ignorecase_class c)"
| "ignorecase (Star c) = Star (ignorecase_class c)"
| "ignorecase (Plus c) = Plus (ignorecase_class c)"

definition fragment_match_ignorecase :: matcher where
  "fragment_match_ignorecase p s =
     (case compile p of None \<Rightarrow> None
      | Some items \<Rightarrow> Some (seq_match (map ignorecase items) s \<noteq> []))"





section \<open>Evaluation of the examples\<close>

lemma digit_chars:
  "digit_char 0 = CHR ''0''" "digit_char 1 = CHR ''1''" "digit_char 2 = CHR ''2''"
  "digit_char 3 = CHR ''3''" "digit_char 4 = CHR ''4''" "digit_char 5 = CHR ''5''"
  "digit_char 6 = CHR ''6''" "digit_char 7 = CHR ''7''" "digit_char 8 = CHR ''8''"
  "digit_char 9 = CHR ''9''" "digit_char (Suc 0) = CHR ''1''"
  by code_simp+

lemmas kb_to_gb_eval =
  kb_to_gb_def float_of_int_def round53_def bitlen.simps Let_def float_mul_def
  one_millionth_def py_round_def round_half_even_def

lemma ram_amount_8000000:
  "ram_amount ''MemTotal:        8000000 kB'' = Inr (Some ''8 GB'')"
proof -
  have "re_search ram_amount_re ''MemTotal:        8000000 kB'' = Some ''8000000''"
    by code_simp
  moreover have "int_of_digits ''8000000'' = 8000000"
    by (simp add: int_of_digits_def)
  moreover have "kb_to_gb 8000000 = Inr 8"
    by (simp add: kb_to_gb_eval)
  ultimately show ?thesis
    by (simp add: ram_amount_def str_nat.simps digit_chars)
qed

lemma ram_amount_16000000:
  "ram_amount ''MemTotal:       16000000 kB'' = Inr (Some ''16 GB'')"
proof -
  have "re_search ram_amount_re ''MemTotal:       16000000 kB'' = Some ''16000000''"
    by code_simp
  moreover have "int_of_digits ''16000000'' = 16000000"
    by (simp add: int_of_digits_def)
  moreover have "kb_to_gb 16000000 = Inr 16"
    by (simp add: kb_to_gb_eval)
  ultimately show ?thesis
    by (simp add: ram_amount_def str_nat.simps digit_chars)
qed

lemma str_int_0: "str_int (Some 0) = ''0''"
  by (simp add: str_int_def str_nat.simps digit_chars)

lemma lower_ram_amount: "lower ''ram_amount'' = ''ram_amount''"
  by code_simp

lemma lower_RAM_Amount: "lower ''RAM_Amount'' = ''ram_amount''"
  by code_simp

lemma example_header_cells:
  "header_cell ''name'' = ''NAME''"
  "header_cell ''resource_group'' = ''RESOURCE GROUP''"
  "header_cell ''public_ip_address'' = ''PUBLIC IP ADDRESS''"
  "header_cell ''ram_amount'' = ''RAM AMOUNT''"
  by code_simp+

lemma example_loaded:
  "load_from_csv (Some example_rows) =
     Inr [(''vm1'', \<lparr>attrs = example_rows ! 0, tasks = []\<rparr>),
          (''vm2'', \<lparr>attrs = example_rows ! 1, tasks = []\<rparr>)]"
  by (simp add: load_from_csv_def example_rows_def)

lemma example_attached:
  "load_playbook (Some example_playbook)
     [(''vm1'', \<lparr>attrs = example_rows ! 0, tasks = []\<rparr>),
      (''vm2'', \<lparr>attrs = example_rows ! 1, tasks = []\<rparr>)] = Inr example_hosts"
  by (simp add: load_playbook_def example_playbook_def example_hosts_def example_task_def
      new_task_def lower_ram_amount)

lemma example_collected_eq:
  "example_collected =
     [(''vm1'', \<lparr>attrs = example_rows ! 0,
         tasks = [(''ram_amount'', example_task\<lparr>callback_result := Some ''8 GB'',
                    exit_status := Some ''0'', task_failed := Some False\<rparr>)]\<rparr>),
      (''vm2'', \<lparr>attrs = example_rows ! 1,
         tasks = [(''ram_amount'', example_task\<lparr>callback_result := Some ''16 GB'',
                    exit_status := Some ''0'', task_failed := Some False\<rparr>)]\<rparr>)]"
  by (simp add: example_collected_def example_event_def example_hosts_def
      v2_runner_on_ok_def get_task_def getitem_def put_task_def example_task_def
      stdout_callback_def str_text_def ram_amount_8000000 ram_amount_16000000 str_int_0)

section \<open>The result collector\<close>

lemma map_update_same:
  "map_of d k = Some v \<Longrightarrow> g k v' = g k v \<Longrightarrow>
   map (\<lambda>(k, v). (k, g k v)) (AList.update k v' d) = map (\<lambda>(k, v). (k, g k v)) d"
  by (induction d) (auto split: if_splits)

lemma frame_put_task:
  assumes "get_task hosts r = Inr task" and "frame_task task' = frame_task task"
  shows "frame (put_task hosts r task') = frame hosts"
proof -
  from assms(1) obtain host where h: "map_of hosts (res_host r) = Some host"
    and t: "map_of (tasks host) (res_task r) = Some task"
    by (auto simp: get_task_def getitem_def split: option.splits)
  have "map (\<lambda>(n, t). (n, frame_task t)) (AList.update (res_task r) task' (tasks host))
        = map (\<lambda>(n, t). (n, frame_task t)) (tasks host)"
    using map_update_same [OF t, of "\<lambda>_. frame_task" task'] assms(2) by simp
  then show ?thesis
    using map_update_same [OF h, of
        "\<lambda>_ h. h\<lparr>tasks := map (\<lambda>(n, t). (n, frame_task t)) (tasks h)\<rparr>"
        "host\<lparr>tasks := AList.update (res_task r) task' (tasks host)\<rparr>"]
    by (simp add: frame_def put_task_def h)
qed

lemma get_task_put_task:
  "get_task hosts r = Inr task \<Longrightarrow> get_task (put_task hosts r task') r = Inr task'"
  by (auto simp: get_task_def getitem_def put_task_def AList.update_conv' split: option.splits)

lemma get_task_put_task_other:
  "(res_host r', res_task r') \<noteq> (res_host r, res_task r) \<Longrightarrow>
   get_task (put_task hosts r task') r' = get_task hosts r'"
  by (auto simp: get_task_def getitem_def put_task_def AList.update_conv' split: option.splits)

lemma get_task_stdout [simp]: "get_task hosts (r\<lparr>res_stdout := out\<rparr>) = get_task hosts r"
  by (simp add: get_task_def split: sum.splits)

lemma get_host_stdout [simp]: "get_host hosts (r\<lparr>res_stdout := out\<rparr>) = get_host hosts r"
  by (simp add: get_host_def)

lemma put_task_stdout [simp]: "put_task hosts (r\<lparr>res_stdout := out\<rparr>) t = put_task hosts r t"
  by (simp add: put_task_def split: option.splits)

lemma on_failed_frame: "frame (fst (v2_runner_on_failed hosts r)) = frame hosts"
  by (auto simp: v2_runner_on_failed_def frame_task_def intro!: frame_put_task split: sum.splits)

lemma on_unreachable_frame: "frame (fst (v2_runner_on_unreachable hosts r)) = frame hosts"
  by (auto simp: v2_runner_on_unreachable_def frame_task_def intro!: frame_put_task
      split: sum.splits)

lemma on_failed_stdout:
  "v2_runner_on_failed hosts (r\<lparr>res_stdout := out\<rparr>) = v2_runner_on_failed hosts r"
  by (simp add: v2_runner_on_failed_def split: sum.splits)

lemma on_unreachable_stdout:
  "v2_runner_on_unreachable hosts (r\<lparr>res_stdout := out\<rparr>) = v2_runner_on_unreachable hosts r"
  by (simp add: v2_runner_on_unreachable_def split: sum.splits)

lemma on_failed_task:
  "get_task hosts r = Inr task \<Longrightarrow>
   get_task (fst (v2_runner_on_failed hosts r)) r =
     Inr (task\<lparr>exit_status := Some (str_int (res_rc r)), task_failed := Some True\<rparr>)"
  by (simp add: v2_runner_on_failed_def get_task_put_task)

lemma on_unreachable_task:
  assumes "get_task hosts r = Inr task"
  shows "get_task (fst (v2_runner_on_unreachable hosts r)) r =
     Inr (task\<lparr>exit_status := Some (str_int (res_rc r)), task_failed := Some True\<rparr>)"
proof -
  from assms obtain host where "get_host hosts r = Inr host"
    by (auto simp: get_task_def get_host_def split: sum.splits)
  with assms show ?thesis
    by (simp add: v2_runner_on_unreachable_def get_task_put_task)
qed

lemma on_failed_other:
  "(res_host r', res_task r') \<noteq> (res_host r, res_task r) \<Longrightarrow>
   get_task (fst (v2_runner_on_failed hosts r)) r' = get_task hosts r'"
  by (auto simp: v2_runner_on_failed_def get_task_put_task_other split: sum.splits)

lemma on_unreachable_other:
  "(res_host r', res_task r') \<noteq> (res_host r, res_task r) \<Longrightarrow>
   get_task (fst (v2_runner_on_unreachable hosts r)) r' = get_task hosts r'"
  by (auto simp: v2_runner_on_unreachable_def get_task_put_task_other split: sum.splits)

text \<open>
  C7. A failure event and an unreachable event run no output parser and leave
  \<open>callback_result\<close> as it was: the registry after the event differs from the one before
  at most in the fields \<open>exit_status\<close> and \<open>task_failed\<close>; the event's \<open>stdout\<close> has no
  influence on it; the task of the event gets \<open>exit_status = str(rc)\<close> and
  \<open>task_failed = True\<close>, every other task is as before.
\<close>

theorem failure_events_keep_callback_result:
  assumes "handler = v2_runner_on_failed \<or> handler = v2_runner_on_unreachable"
  shows "frame (fst (handler hosts r)) = frame hosts
       \<and> handler hosts (r\<lparr>res_stdout := out\<rparr>) = handler hosts r
       \<and> (\<forall>task. get_task hosts r = Inr task \<longrightarrow>
            get_task (fst (handler hosts r)) r =
              Inr (task\<lparr>exit_status := Some (str_int (res_rc r)), task_failed := Some True\<rparr>))
       \<and> (\<forall>r'. (res_host r', res_task r') \<noteq> (res_host r, res_task r) \<longrightarrow>
            get_task (fst (handler hosts r)) r' = get_task hosts r')"
proof -
  from assms show ?thesis
  proof
    assume "handler = v2_runner_on_failed"
    then show ?thesis
      using on_failed_frame on_failed_stdout on_failed_task on_failed_other by simp
  next
    assume "handler = v2_runner_on_unreachable"
    then show ?thesis
      using on_unreachable_frame on_unreachable_stdout on_unreachable_task
        on_unreachable_other by simp
  qed
qed

theorem failure_events_keep_callback_result_witness:
  "get_task (fst (v2_runner_on_failed example_collected example_failure)) example_failure =
     Inr (example_task\<lparr>callback_result := Some ''8 GB'', exit_status := Some ''2'',
                        task_failed := Some True\<rparr>)
   \<and> get_task (fst (v2_runner_on_unreachable example_collected example_failure))
        example_failure =
     Inr (example_task\<lparr>callback_result := Some ''8 GB'', exit_status := Some ''2'',
                        task_failed := Some True\<rparr>)"
proof -
  have g: "get_task example_collected example_failure =
     Inr (example_task\<lparr>callback_result := Some ''8 GB'', exit_status := Some ''0'',
                        task_failed := Some False\<rparr>)"
    by (simp add: example_collected_eq get_task_def getitem_def example_failure_def)
  have s2: "str_int (res_rc example_failure) = ''2''"
    by (simp add: example_failure_def str_int_def str_nat.simps digit_chars)
  note f = failure_events_keep_callback_result [OF disjI1 [OF refl],
      of example_collected example_failure None]
  note u = failure_events_keep_callback_result [OF disjI2 [OF refl],
      of example_collected example_failure None]
  have "get_task (fst (v2_runner_on_failed example_collected example_failure))
          example_failure =
        Inr (example_task\<lparr>callback_result := Some ''8 GB'', exit_status := Some ''0'',
               task_failed := Some False, exit_status := Some ''2'',
               task_failed := Some True\<rparr>)"
    using f [THEN conjunct2, THEN conjunct2, THEN conjunct1, rule_format, OF g]
    by (simp only: s2)
  moreover have "get_task (fst (v2_runner_on_unreachable example_collected example_failure))
          example_failure =
        Inr (example_task\<lparr>callback_result := Some ''8 GB'', exit_status := Some ''0'',
               task_failed := Some False, exit_status := Some ''2'',
               task_failed := Some True\<rparr>)"
    using u [THEN conjunct2, THEN conjunct2, THEN conjunct1, rule_format, OF g]
    by (simp only: s2)
  ultimately show ?thesis by simp
qed

section \<open>The report\<close>

text \<open>
  C8. When the selection is empty the run ends with exit status 0 and writes no report
  file, whether or not the file could be opened.
\<close>

theorem empty_selection_exits_cleanly:
  "report writable [] = Inr \<lparr>exit_code = 0, report_file = None\<rparr>"
  by (simp add: report_def)

text \<open>
  C1, at two hosts. The rows handed to the writer after two successful events: the row
  written for the second host starts with all the cells of the first host's row.
\<close>

theorem report_second_row_repeats_first:
  "report True example_collected =
     Inr \<lparr>exit_code = 0,
          report_file = Some
            ([''NAME'', ''RESOURCE GROUP'', ''PUBLIC IP ADDRESS'', ''RAM AMOUNT''],
             [[Some ''vm1'', Some ''rg-production'', Some ''10.0.0.4'', Some ''8 GB''],
              [Some ''vm1'', Some ''rg-production'', Some ''10.0.0.4'', Some ''8 GB'',
               Some ''vm2'', Some ''rg-production'', Some ''10.0.0.5'', Some ''16 GB'']])\<rparr>"
  by (simp add: report_def example_collected_eq fieldlist_def getattr_def getitem_def
      example_rows_def example_task_def example_header_cells)

text \<open>
  C3, at a task declared as \<open>RAM_Amount\<close>. \<open>load_playbook\<close> files the task under the key
  \<open>ram_amount\<close>; the success event carries the declared name, \<open>get_task\<close> looks that up
  and raises KeyError, and no parser of that name exists either.
\<close>

theorem declared_case_breaks_lookup:
  "load_playbook (Some [[''name'' \<mapsto> ''RAM_Amount'']])
       [(''vm1'', \<lparr>attrs = example_rows ! 0, tasks = []\<rparr>)] = Inr example_upper_hosts
   \<and> v2_runner_on_ok example_upper_hosts
        \<lparr>res_host = ''vm1'', res_task = ''RAM_Amount'', res_rc = Some 0,
         res_stdout = Some ''MemTotal: 8000000 kB''\<rparr> = (example_upper_hosts, Inl KeyError)
   \<and> stdout_callback ''RAM_Amount'' ''MemTotal: 8000000 kB'' = Inl AttributeError"
  by (simp add: load_playbook_def new_task_def lower_RAM_Amount v2_runner_on_ok_def
      get_task_def getitem_def stdout_callback_def example_upper_hosts_def
      example_upper_task_def)

section \<open>Loading the inventory\<close>

lemma find_app:
  "List.find P (xs @ ys) = (case List.find P xs of None \<Rightarrow> List.find P ys | Some x \<Rightarrow> Some x)"
  by (induction xs) auto

lemma last_row_named_Cons:
  "last_row_named n (row # rows) =
     (case last_row_named n rows of Some r \<Rightarrow> Some r
      | None \<Rightarrow> if row ''name'' = Some n then Some row else None)"
  by (simp add: last_row_named_def find_app split: option.splits)

lemma load_rows_lookup:
  "load_rows rows hosts = Inr reg \<Longrightarrow>
   map_of reg n =
     (case last_row_named n rows of Some row \<Rightarrow> Some (host_of_row row)
      | None \<Rightarrow> map_of hosts n)"
proof (induction rows arbitrary: hosts)
  case Nil
  then show ?case by (simp add: last_row_named_def)
next
  case (Cons row rows)
  then show ?case
    by (auto simp: last_row_named_Cons AList.update_conv' host_of_row_def
        split: option.splits if_splits)
qed

lemma load_rows_keys:
  "load_rows rows hosts = Inr reg \<Longrightarrow>
   fst ` set reg = fst ` set hosts \<union> {n. \<exists>row\<in>set rows. row ''name'' = Some n}"
proof (induction rows arbitrary: hosts)
  case Nil
  then show ?case by simp
next
  case (Cons row rows)
  then show ?case
    by (auto simp: AList.dom_update split: option.splits if_splits)
qed

lemma load_rows_distinct:
  "load_rows rows hosts = Inr reg \<Longrightarrow> distinct (map fst hosts) \<Longrightarrow> distinct (map fst reg)"
proof (induction rows arbitrary: hosts)
  case Nil
  then show ?case by simp
next
  case (Cons row rows)
  then show ?case
    by (auto simp: AList.distinct_update split: option.splits if_splits)
qed

lemma load_rows_total:
  "\<forall>row\<in>set rows. row ''name'' \<noteq> None \<and> row ''tasks'' = None \<Longrightarrow>
   \<exists>reg. load_rows rows hosts = Inr reg"
  by (induction rows arbitrary: hosts) auto

text \<open>
  C10. When every row has a \<open>name\<close> cell (and no column is called \<open>tasks\<close>),
  \<open>load_from_csv\<close> returns a registry whose keys are exactly the names in the file,
  each once, and each name is mapped to the host built from the last row with that name.
\<close>

theorem load_from_csv_keeps_last_row:
  assumes "\<forall>row\<in>set rows. row ''name'' \<noteq> None \<and> row ''tasks'' = None"
  shows "\<exists>reg. load_from_csv (Some rows) = Inr reg
       \<and> fst ` set reg = {n. \<exists>row\<in>set rows. row ''name'' = Some n}
       \<and> distinct (map fst reg)
       \<and> (\<forall>n. map_of reg n = map_option host_of_row (last_row_named n rows))"
proof -
  from load_rows_total [OF assms] obtain reg where r: "load_rows rows [] = Inr reg"
    by blast
  have "map_of reg n = map_option host_of_row (last_row_named n rows)" for n
    using load_rows_lookup [OF r, of n] by (simp split: option.splits)
  with r load_rows_keys [OF r] load_rows_distinct [OF r] show ?thesis
    by (simp add: load_from_csv_def)
qed

theorem load_from_csv_keeps_last_row_witness:
  "load_from_csv (Some example_duplicate_rows) =
     Inr [(''vm1'', host_of_row (example_duplicate_rows ! 2)),
          (''vm2'', host_of_row (example_duplicate_rows ! 1))]
   \<and> (\<exists>reg. load_from_csv (Some example_duplicate_rows) = Inr reg
       \<and> fst ` set reg = {n. \<exists>row\<in>set example_duplicate_rows. row ''name'' = Some n}
       \<and> distinct (map fst reg)
       \<and> (\<forall>n. map_of reg n = map_option host_of_row (last_row_named n example_duplicate_rows)))"
proof -
  have w: "\<forall>row\<in>set example_duplicate_rows. row ''name'' \<noteq> None \<and> row ''tasks'' = None"
    by (simp add: example_duplicate_rows_def)
  have "load_from_csv (Some example_duplicate_rows) =
     Inr [(''vm1'', host_of_row (example_duplicate_rows ! 2)),
          (''vm2'', host_of_row (example_duplicate_rows ! 1))]"
    by (simp add: load_from_csv_def example_duplicate_rows_def host_of_row_def)
  with load_from_csv_keeps_last_row [OF w] show ?thesis by simp
qed

section \<open>The filter\<close>

lemma has_fields_True_iff:
  "has_fields re_match host flds = Inr True \<longleftrightarrow> matches_all re_match host flds"
proof (induction flds)
  case Nil
  then show ?case by (simp add: matches_all_def)
next
  case (Cons p flds)
  obtain k v where p: "p = (k, v)" by (cases p)
  show ?case
    using Cons.IH
    by (auto simp: p matches_all_def field_matches_def getattr_def
        split: option.splits sum.splits)
qed

lemma update_fresh: "k \<notin> fst ` set d \<Longrightarrow> AList.update k v d = d @ [(k, v)]"
  by (induction d) auto

lemma matches_all_update:
  "i < length flds \<Longrightarrow> \<not> field_matches re_match h (k, v') \<Longrightarrow>
   \<not> matches_all re_match h (flds[i := (k, v')])"
  by (auto simp: matches_all_def list_all_iff set_update_memI)

lemma filter_loop_Cons_True:
  "has_fields re_match h flds = Inr True \<Longrightarrow> attrs h ''name'' = Some n \<Longrightarrow>
   filter_loop re_match flds (h # hs) acc = filter_loop re_match flds hs (AList.update n h acc)"
  by (simp add: getattr_def)

lemma filter_loop_Cons_False:
  "has_fields re_match h flds = Inr False \<Longrightarrow>
   filter_loop re_match flds (h # hs) acc = filter_loop re_match flds hs acc"
  by simp

lemma filter_loop_Cons_error:
  "has_fields re_match h flds = Inl e \<Longrightarrow> filter_loop re_match flds (h # hs) acc = Inl e"
  by simp

lemma filter_loop_keyed:
  "distinct (map fst reg) \<Longrightarrow> list_all (\<lambda>(n, h). attrs h ''name'' = Some n) reg \<Longrightarrow>
   \<forall>k\<in>fst ` set reg. k \<notin> fst ` set acc \<Longrightarrow>
   filter_loop re_match flds (map snd reg) acc = Inr sel \<Longrightarrow>
   sel = acc @ filter (\<lambda>(n, h). matches_all re_match h flds) reg"
proof (induction reg arbitrary: acc)
  case Nil
  then show ?case by simp
next
  case (Cons p reg)
  obtain n h where p: "p = (n, h)" by (cases p)
  have nm: "attrs h ''name'' = Some n"
    using Cons.prems(2) unfolding p by simp
  have d: "distinct (map fst reg)" and nr: "n \<notin> fst ` set reg"
    using Cons.prems(1) unfolding p by simp_all
  have l: "list_all (\<lambda>(n, h). attrs h ''name'' = Some n) reg"
    using Cons.prems(2) unfolding p by simp
  have na: "n \<notin> fst ` set acc" and ra: "\<forall>k\<in>fst ` set reg. k \<notin> fst ` set acc"
    using Cons.prems(3) unfolding p by simp_all
  have run: "filter_loop re_match flds (h # map snd reg) acc = Inr sel"
    using Cons.prems(4) unfolding p by simp
  show ?case
  proof (cases "has_fields re_match h flds")
    case (Inl e)
    with run show ?thesis
      by (simp only: filter_loop_Cons_error [OF Inl]) simp
  next
    case (Inr ok)
    show ?thesis
    proof (cases ok)
      case True
      with Inr have hf: "has_fields re_match h flds = Inr True" by simp
      then have m: "matches_all re_match h flds"
        by (simp only: has_fields_True_iff)
      have "filter_loop re_match flds (map snd reg) (acc @ [(n, h)]) = Inr sel"
        using run by (simp only: filter_loop_Cons_True [OF hf nm] update_fresh [OF na])
      moreover have "\<forall>k\<in>fst ` set reg. k \<notin> fst ` set (acc @ [(n, h)])"
        using ra nr by auto
      ultimately have "sel = (acc @ [(n, h)]) @ filter (\<lambda>(n, h). matches_all re_match h flds) reg"
        using Cons.IH [OF d l] by blast
      with m show ?thesis unfolding p by simp
    next
      case False
      with Inr have hf: "has_fields re_match h flds = Inr False" by simp
      have m: "\<not> matches_all re_match h flds"
        using hf has_fields_True_iff [of re_match h flds] by simp
      have "filter_loop re_match flds (map snd reg) acc = Inr sel"
        using run by (simp only: filter_loop_Cons_False [OF hf])
      then have "sel = acc @ filter (\<lambda>(n, h). matches_all re_match h flds) reg"
        using Cons.IH [OF d l ra] by blast
      with m show ?thesis unfolding p by simp
    qed
  qed
qed

lemma filter_hosts_selected:
  assumes "keyed_by_name hosts" and "filter_hosts re_match hosts (Some flds) = Inr sel"
  shows "sel = filter (\<lambda>(n, h). matches_all re_match h flds) hosts"
proof -
  have "filter_loop re_match flds (map snd hosts) [] = Inr sel"
    using assms(2) by (simp add: filter_hosts_def)
  from filter_loop_keyed [OF _ _ _ this] assms(1) show ?thesis
    by (simp add: keyed_by_name_def)
qed

lemma filter_selected_keyed:
  assumes "keyed_by_name hosts" and "filter_hosts re_match hosts flds = Inr sel"
  shows "keyed_by_name sel"
proof (cases flds)
  case None
  with assms show ?thesis by (simp add: filter_hosts_def)
next
  case (Some fs)
  with assms have "sel = filter (\<lambda>(n, h). matches_all re_match h fs) hosts"
    using filter_hosts_selected by blast
  with assms(1) show ?thesis
    by (auto simp: keyed_by_name_def distinct_map_filter list_all_iff)
qed

lemma example_lowers:
  "lower ''Resource_Group'' = ''resource_group''" "lower ''RG-prod'' = ''rg-prod''"
  "lower ''rg-production'' = ''rg-production''" "lower ''status'' = ''status''"
  "lower ''running'' = ''running''" "lower ''name'' = ''name''" "lower ''vm'' = ''vm''"
  "lower ''vm1'' = ''vm1''" "lower ''stopped'' = ''stopped''"
  by code_simp+

lemma example_hosts_keyed: "keyed_by_name example_hosts"
  by (simp add: keyed_by_name_def example_hosts_def example_rows_def)

lemma example_filter_selects:
  "filter_hosts literal_match example_hosts (Some example_filter) = Inr example_hosts"
  by (simp add: filter_hosts_def example_filter_def example_hosts_def example_rows_def
      getattr_def example_lowers literal_match_def)

section \<open>Missing attributes\<close>

lemma has_fields_append:
  "list_all (field_matches re_match host) before \<Longrightarrow>
   has_fields re_match host (before @ flds) = has_fields re_match host flds"
proof (induction before)
  case Nil
  then show ?case by simp
next
  case (Cons p before)
  obtain k v where p: "p = (k, v)" by (cases p)
  from Cons show ?case
    by (auto simp: p field_matches_def getattr_def split: option.splits)
qed

lemma has_fields_missing:
  "attrs host (lower k) = None \<Longrightarrow> has_fields re_match host ((k, v) # rest) = Inl AttributeError"
  by (simp add: getattr_def)

lemma has_fields_no_match:
  "attrs host (lower k) = Some a \<Longrightarrow> re_match (lower v) (lower a) = Some False \<Longrightarrow>
   has_fields re_match host ((k, v) # rest) = Inr False"
  by (simp add: getattr_def)

lemma filter_loop_error:
  "h \<in> set hs \<Longrightarrow> has_fields re_match h flds = Inl e \<Longrightarrow>
   \<exists>e'. filter_loop re_match flds hs acc = Inl e'"
proof (induction hs arbitrary: acc)
  case Nil
  then show ?case by simp
next
  case (Cons h0 hs)
  show ?case
  proof (cases "h = h0")
    case True
    with Cons.prems(2) show ?thesis by simp
  next
    case False
    with Cons.prems(1) have "h \<in> set hs" by simp
    from Cons.IH [OF this Cons.prems(2)] show ?thesis
      by (auto split: sum.splits)
  qed
qed

text \<open>
  C5, as the code has it. A host without the attribute named by a predicate makes
  \<open>has_fields\<close> raise AttributeError when every earlier predicate matches, and then
  \<open>filter_hosts\<close> returns no result; the host is rejected without an error when an earlier
  predicate already fails on it.
\<close>

theorem missing_attribute_raises:
  assumes "(n, host) \<in> set hosts"
    and "attrs host (lower k) = None"
    and "list_all (field_matches re_match host) before"
  shows "has_fields re_match host (before @ (k, v) # rest) = Inl AttributeError
       \<and> (\<exists>e. filter_hosts re_match hosts (Some (before @ (k, v) # rest)) = Inl e)
       \<and> (\<forall>k' v' a. attrs host (lower k') = Some a \<and> re_match (lower v') (lower a) = Some False
             \<longrightarrow> has_fields re_match host (before @ (k', v') # (k, v) # rest) = Inr False)"
proof -
  have e: "has_fields re_match host (before @ (k, v) # rest) = Inl AttributeError"
    using has_fields_append [OF assms(3)] has_fields_missing [OF assms(2)] by simp
  have "host \<in> set (map snd hosts)"
    using assms(1) by force
  from filter_loop_error [OF this e]
  have f: "\<exists>e. filter_hosts re_match hosts (Some (before @ (k, v) # rest)) = Inl e"
    by (simp add: filter_hosts_def)
  have "has_fields re_match host (before @ (k', v') # (k, v) # rest) = Inr False"
    if "attrs host (lower k') = Some a" "re_match (lower v') (lower a) = Some False"
    for k' v' a
    using has_fields_append [OF assms(3)] has_fields_no_match [of host k' a re_match v', OF that]
    by simp
  with e f show ?thesis by blast
qed

theorem missing_attribute_counterexample:
  "filter_hosts literal_match example_bare_hosts (Some [(''status'', ''running'')]) =
     Inl AttributeError"
  by (simp add: filter_hosts_def example_bare_hosts_def getattr_def example_lowers)

theorem missing_attribute_raises_witness:
  "has_fields literal_match (snd (example_bare_hosts ! 0))
     ([(''name'', ''vm'')] @ (''status'', ''running'') # []) = Inl AttributeError
   \<and> (\<exists>e. filter_hosts literal_match example_bare_hosts
             (Some ([(''name'', ''vm'')] @ (''status'', ''running'') # [])) = Inl e)
   \<and> has_fields literal_match (snd (example_bare_hosts ! 0))
       ([(''name'', ''vm'')] @ (''name'', ''stopped'') # (''status'', ''running'') # []) =
       Inr False"
proof -
  have a: "(''vm1'', snd (example_bare_hosts ! 0)) \<in> set example_bare_hosts"
    by (simp add: example_bare_hosts_def)
  have b: "attrs (snd (example_bare_hosts ! 0)) (lower ''status'') = None"
    by (simp add: example_bare_hosts_def example_lowers)
  have c: "list_all (field_matches literal_match (snd (example_bare_hosts ! 0)))
             [(''name'', ''vm'')]"
    by (simp add: example_bare_hosts_def field_matches_def example_lowers literal_match_def)
  have d: "attrs (snd (example_bare_hosts ! 0)) (lower ''name'') = Some ''vm1''"
    "literal_match (lower ''stopped'') (lower ''vm1'') = Some False"
    by (simp_all add: example_bare_hosts_def example_lowers literal_match_def)
  from missing_attribute_raises [OF a b c, of "''running''" "[]"] d show ?thesis
    by blast
qed

section \<open>The inventory\<close>

lemma ansible_dict_keyed:
  "distinct (map fst sel) \<Longrightarrow>
   list_all (\<lambda>(n, h). attrs h ''name'' = Some n \<and> attrs h ''public_ip_address'' \<noteq> None) sel \<Longrightarrow>
   \<forall>k\<in>fst ` set sel. k \<notin> fst ` set d \<Longrightarrow>
   ansible_dict (map snd sel) d =
     Inr (d @ map (\<lambda>(n, h). (n, \<lparr>ansible_host = the (attrs h ''public_ip_address''),
                                   ansible_port = 22, ansible_user = ''ubuntu'',
                                   ansible_ssh_private_key_file =
                                     ''/var/lib/jenkins/.ts/admin/rsa/azure/'' @ n @ ''/'' @ n\<rparr>))
                  sel)"
proof (induction sel arbitrary: d)
  case Nil
  then show ?case by simp
next
  case (Cons p sel)
  obtain n h where p: "p = (n, h)" by (cases p)
  from Cons.prems(2) obtain ip where nm: "attrs h ''name'' = Some n"
    and ip: "attrs h ''public_ip_address'' = Some ip"
    unfolding p by auto
  have e: "inventory_entry h =
      Inr (n, \<lparr>ansible_host = ip, ansible_port = 22, ansible_user = ''ubuntu'',
               ansible_ssh_private_key_file =
                 ''/var/lib/jenkins/.ts/admin/rsa/azure/'' @ n @ ''/'' @ n\<rparr>)"
    by (simp add: inventory_entry_def getattr_def nm ip)
  have na: "n \<notin> fst ` set d" and nr: "n \<notin> fst ` set sel"
    and ra: "\<forall>k\<in>fst ` set sel. k \<notin> fst ` set d"
    using Cons.prems(1,3) unfolding p by simp_all
  have ds: "distinct (map fst sel)"
    and ls: "list_all (\<lambda>(n, h). attrs h ''name'' = Some n
                \<and> attrs h ''public_ip_address'' \<noteq> None) sel"
    using Cons.prems(1,2) unfolding p by simp_all
  let ?e = "\<lparr>ansible_host = ip, ansible_port = 22, ansible_user = ''ubuntu'',
             ansible_ssh_private_key_file =
               ''/var/lib/jenkins/.ts/admin/rsa/azure/'' @ n @ ''/'' @ n\<rparr>"
  have "\<forall>k\<in>fst ` set sel. k \<notin> fst ` set (d @ [(n, ?e)])"
    using ra nr by auto
  from Cons.IH [OF ds ls this] show ?case
    unfolding p by (simp add: e update_fresh [OF na] ip)
qed

text \<open>
  C9. On a registry keyed by name, when the inventory file can be opened, the filter
  returns and every selected host has a public address, \<open>generate_yaml\<close> dumps one entry
  per selected host, in order, with the host's address, port 22, user \<open>ubuntu\<close> and the
  key path \<open>/var/lib/jenkins/.ts/admin/rsa/azure/<name>/<name>\<close>, and it returns the
  selection of \<open>filter_hosts\<close> itself.
\<close>

theorem generate_yaml_renders_selection:
  assumes "keyed_by_name hosts"
    and "filter_hosts re_match hosts flds = Inr sel"
    and "list_all (\<lambda>(n, h). attrs h ''public_ip_address'' \<noteq> None) sel"
  shows "generate_yaml re_match True hosts flds =
     Inr (map (\<lambda>(n, h). (n, \<lparr>ansible_host = the (attrs h ''public_ip_address''),
                               ansible_port = 22, ansible_user = ''ubuntu'',
                               ansible_ssh_private_key_file =
                                 ''/var/lib/jenkins/.ts/admin/rsa/azure/'' @ n @ ''/'' @ n\<rparr>))
              sel, sel)"
proof -
  have k: "keyed_by_name sel"
    using filter_selected_keyed [OF assms(1,2)] .
  then have "list_all (\<lambda>(n, h). attrs h ''name'' = Some n
                \<and> attrs h ''public_ip_address'' \<noteq> None) sel"
    using assms(3) by (auto simp: keyed_by_name_def list_all_iff)
  from ansible_dict_keyed [OF _ this, of "[]"] k assms(2) show ?thesis
    by (simp add: generate_yaml_def keyed_by_name_def)
qed

theorem generate_yaml_renders_selection_witness:
  "generate_yaml literal_match True example_hosts (Some example_filter) =
     Inr ([(''vm1'', \<lparr>ansible_host = ''10.0.0.4'', ansible_port = 22, ansible_user = ''ubuntu'',
                      ansible_ssh_private_key_file =
                        ''/var/lib/jenkins/.ts/admin/rsa/azure/vm1/vm1''\<rparr>),
           (''vm2'', \<lparr>ansible_host = ''10.0.0.5'', ansible_port = 22, ansible_user = ''ubuntu'',
                      ansible_ssh_private_key_file =
                        ''/var/lib/jenkins/.ts/admin/rsa/azure/vm2/vm2''\<rparr>)],
          example_hosts)"
proof -
  have "list_all (\<lambda>(n, h). attrs h ''public_ip_address'' \<noteq> None) example_hosts"
    by (simp add: example_hosts_def example_rows_def)
  from generate_yaml_renders_selection [OF example_hosts_keyed example_filter_selects this]
  show ?thesis
    by (simp add: example_hosts_def example_rows_def)
qed

lemma generate_yaml_unwritable:
  "generate_yaml re_match False hosts flds = Inl (SystemExit 1)"
  by (simp add: generate_yaml_def)

section \<open>The filter on a pattern with an upper-case escape\<close>

lemma compile_examples:
  "compile (backslash # ''S+'') = Some [Plus NotSpace]"
  "compile (lower (backslash # ''S+'')) = Some [Plus Space]"
  "compile (backslash # ''d+'' @ backslash # ''.'' @ backslash # ''d+'') =
     Some [Plus Digit, One (Lit CHR ''.''), Plus Digit]"
  by code_simp+

lemma lowered_escape_no_match:
  "fragment_match (lower (backslash # ''S+'')) ''running'' = Some False"
  by code_simp

lemma ignorecase_escape_matches:
  "fragment_match_ignorecase (backslash # ''S+'') ''running'' = Some True"
  by code_simp

text \<open>
  C6. The pattern \<open>\S+\<close> matches at the start of \<open>running\<close>, with or without regard to
  case. \<open>has_fields\<close> lower-cases the pattern to \<open>\s+\<close>, which does not match, so the
  filter \<open>{"status": "\S+"}\<close> rejects both hosts of the example, whose status is
  \<open>running\<close>.
\<close>

theorem lowered_escape_rejects_matching_host:
  "fragment_match_ignorecase (backslash # ''S+'') ''running'' = Some True
   \<and> fragment_match (backslash # ''S+'') ''running'' = Some True
   \<and> attrs (snd (example_hosts ! 0)) ''status'' = Some ''running''
   \<and> has_fields fragment_match (snd (example_hosts ! 0)) [(''status'', backslash # ''S+'')]
       = Inr False
   \<and> filter_hosts fragment_match example_hosts (Some [(''status'', backslash # ''S+'')])
       = Inr []"
proof -
  have "fragment_match (backslash # ''S+'') ''running'' = Some True"
    by code_simp
  then show ?thesis
    by (simp add: ignorecase_escape_matches filter_hosts_def example_hosts_def
        example_rows_def getattr_def example_lowers lowered_escape_no_match)
qed

section \<open>The matcher finds what the patterns mean\<close>









section \<open>Texts without the pattern\<close>













section \<open>The first occurrence of the pattern of \<open>ram_amount\<close>\<close>












section \<open>Rounding\<close>


lemma bitlen_upper: "n < 2 ^ bitlen n"
proof (induction n rule: bitlen.induct)
  case (1 n)
  show ?case
  proof (cases "n = 0")
    case True
    then show ?thesis by (simp add: bitlen.simps)
  next
    case False
    with 1 have "n div 2 < 2 ^ bitlen (n div 2)" by simp
    then have "n < 2 * 2 ^ bitlen (n div 2)" by arith
    with False show ?thesis by (subst bitlen.simps) simp
  qed
qed




section \<open>The amount of memory\<close>








section \<open>The filter always answers when attributes and patterns are in order\<close>

lemma has_fields_total:
  assumes "\<forall>(k, v)\<in>set flds. \<exists>a. attrs h (lower k) = Some a \<and> re_match (lower v) (lower a) \<noteq> None"
  shows "has_fields re_match h flds = Inr (matches_all re_match h flds)"
  using assms
proof (induction flds)
  case Nil
  then show ?case by (simp add: matches_all_def)
next
  case (Cons p flds)
  obtain k v where p: "p = (k, v)" by (cases p)
  from Cons.prems obtain a b where a: "attrs h (lower k) = Some a"
    and b: "re_match (lower v) (lower a) = Some b"
    unfolding p by auto
  have "has_fields re_match h flds = Inr (matches_all re_match h flds)"
    using Cons by simp
  then show ?case
    by (cases b) (simp_all add: p a b getattr_def matches_all_def field_matches_def)
qed

lemma filter_loop_total:
  assumes "\<forall>h\<in>set hs. \<exists>n. attrs h ''name'' = Some n"
    and "\<forall>h\<in>set hs. \<exists>ok. has_fields re_match h flds = Inr ok"
  shows "\<exists>sel. filter_loop re_match flds hs acc = Inr sel"
  using assms
proof (induction hs arbitrary: acc)
  case Nil
  then show ?case by simp
next
  case (Cons h hs)
  from Cons.prems obtain n ok where n: "attrs h ''name'' = Some n"
    and ok: "has_fields re_match h flds = Inr ok" by auto
  have "\<exists>sel. filter_loop re_match flds hs acc' = Inr sel" for acc'
    using Cons by simp
  then show ?case
    by (cases ok) (simp_all add: ok n getattr_def)
qed

lemma filter_hosts_total:
  assumes "keyed_by_name hosts"
    and "\<forall>(n, h)\<in>set hosts. \<forall>(k, v)\<in>set flds.
           \<exists>a. attrs h (lower k) = Some a \<and> re_match (lower v) (lower a) \<noteq> None"
  shows "filter_hosts re_match hosts (Some flds) =
           Inr (filter (\<lambda>(n, h). matches_all re_match h flds) hosts)"
proof -
  have "\<forall>h\<in>set (map snd hosts). \<exists>n. attrs h ''name'' = Some n"
    using assms(1) by (auto simp: keyed_by_name_def list_all_iff)
  moreover have "\<forall>h\<in>set (map snd hosts). \<exists>ok. has_fields re_match h flds = Inr ok"
  proof
    fix h assume "h \<in> set (map snd hosts)"
    then obtain n where "(n, h) \<in> set hosts" by auto
    with assms(2) have "\<forall>(k, v)\<in>set flds.
        \<exists>a. attrs h (lower k) = Some a \<and> re_match (lower v) (lower a) \<noteq> None"
      by blast
    from has_fields_total [OF this] show "\<exists>ok. has_fields re_match h flds = Inr ok"
      by blast
  qed
  ultimately obtain sel where s: "filter_loop re_match flds (map snd hosts) [] = Inr sel"
    using filter_loop_total by blast
  then have "filter_hosts re_match hosts (Some flds) = Inr sel"
    by (simp add: filter_hosts_def)
  with filter_hosts_selected [OF assms(1) this] show ?thesis by simp
qed

end
